theory Spec2Isabelle
  imports Main
begin

section \<open>Python values, exceptions and context variables\<close>

text \<open>
  The exceptions that occur in \<open>workers.py\<close> and in the standard-library classes it
  uses. \<open>OtherError cls msg\<close> stands for any other exception a wrapped function raises,
  and \<open>FalsyError msg\<close> for an exception of a class whose \<open>__bool__\<close> returns \<open>False\<close>:
  the truth value of an exception object is true unless its class says otherwise.
\<close>

datatype exc =
    RuntimeError string
  | InvalidStateError
  | CancelledError
  | ValueError string
  | AttributeError string
  | MemoryError
  | OtherError string string
  | FalsyError string

fun truthy :: "exc \<Rightarrow> bool" where
  "truthy (FalsyError msg) = False"
| "truthy e = True"

text \<open>
  A \<open>contextvars.Context\<close> maps context variables (by name) to values. A wrapped function
  reads the context that is current while it runs.
\<close>

type_synonym 'v ctx = "string \<Rightarrow> 'v option"

text \<open>
  What a wrapped function returns: \<open>None\<close>, a plain value, or an awaitable
  (\<open>inspect.isawaitable\<close>). Awaiting it inside a context ends with a value or an exception.
\<close>

datatype 'v pyobj =
    PyNone
  | Plain 'v
  | Awaitable "'v ctx \<Rightarrow> exc + 'v pyobj"

type_synonym 'v coroutine = "'v ctx \<Rightarrow> exc + 'v pyobj"

fun isawaitable :: "'v pyobj \<Rightarrow> bool" where
  "isawaitable PyNone = False"
| "isawaitable (Plain v) = False"
| "isawaitable (Awaitable co) = True"

section \<open>concurrent.futures.Future\<close>

text \<open>
  The standard-library future (CPython 3.8 and later): its five states, the stored
  result and exception, and the list of done callbacks. \<open>notifications\<close> counts the calls
  of \<open>self._condition.notify_all()\<close>: \<open>cancel\<close>, \<open>set_result\<close> and \<open>set_exception\<close> make one
  such call each time they move the future to a terminal state, and nothing else does.
  The only callback this program attaches is \<open>lambda _: self.shutdown()\<close> of a worker.
\<close>

datatype fstate = PENDING | RUNNING | CANCELLED | CANCELLED_AND_NOTIFIED | FINISHED

datatype callback = ShutdownWorker nat

record 'v future =
  fstate :: fstate
  fresult :: "'v pyobj"
  fexception :: "exc option"
  done_callbacks :: "callback list"
  notifications :: nat

definition Future :: "'v future" where
  "Future = \<lparr>fstate = PENDING, fresult = PyNone, fexception = None,
             done_callbacks = [], notifications = 0\<rparr>"

definition fut_done :: "'v future \<Rightarrow> bool" where
  "fut_done f = (fstate f = CANCELLED \<or> fstate f = CANCELLED_AND_NOTIFIED \<or> fstate f = FINISHED)"

text \<open>The state changes of the methods, before any callback runs.\<close>

definition fut_set_running_or_notify_cancel :: "'v future \<Rightarrow> exc + (bool \<times> 'v future)" where
  "fut_set_running_or_notify_cancel f =
     (if fstate f = CANCELLED then Inr (False, f\<lparr>fstate := CANCELLED_AND_NOTIFIED\<rparr>)
      else if fstate f = PENDING then Inr (True, f\<lparr>fstate := RUNNING\<rparr>)
      else Inl (RuntimeError ''Future in unexpected state''))"

definition fut_set_result :: "'v pyobj \<Rightarrow> 'v future \<Rightarrow> exc + 'v future" where
  "fut_set_result r f =
     (if fut_done f then Inl InvalidStateError
      else Inr (f\<lparr>fresult := r, fstate := FINISHED,
                  notifications := notifications f + 1\<rparr>))"

definition fut_set_exception :: "exc \<Rightarrow> 'v future \<Rightarrow> exc + 'v future" where
  "fut_set_exception e f =
     (if fut_done f then Inl InvalidStateError
      else Inr (f\<lparr>fexception := Some e, fstate := FINISHED,
                  notifications := notifications f + 1\<rparr>))"

definition fut_cancel :: "'v future \<Rightarrow> bool \<times> 'v future" where
  "fut_cancel f =
     (if fstate f = RUNNING \<or> fstate f = FINISHED then (False, f)
      else if fstate f = CANCELLED \<or> fstate f = CANCELLED_AND_NOTIFIED then (True, f)
      else (True, f\<lparr>fstate := CANCELLED, notifications := notifications f + 1\<rparr>))"

text \<open>
  \<open>Future.result()\<close> without a timeout: \<open>None\<close> is a wait that nothing in a sequential run
  ends (the future is neither cancelled nor finished). A finished future goes through
  \<open>__get_result\<close>, which tests \<open>if self._exception:\<close>, the truth value of the stored
  exception, and returns \<open>self._result\<close> when the test fails.
\<close>

definition get_result :: "'v future \<Rightarrow> exc + 'v pyobj" where
  "get_result f =
     (case fexception f of
        Some e \<Rightarrow> if truthy e then Inl e else Inr (fresult f)
      | None \<Rightarrow> Inr (fresult f))"

definition fut_result :: "'v future \<Rightarrow> (exc + 'v pyobj) option" where
  "fut_result f =
     (if fstate f = CANCELLED \<or> fstate f = CANCELLED_AND_NOTIFIED then Some (Inl CancelledError)
      else if fstate f = FINISHED then Some (get_result f)
      else None)"

section \<open>The data of workers.py\<close>

text \<open>
  The dataclass \<open>Call\<close>. The future is shared between the submitter, the worker and the
  loop, so a call holds a reference into the store of futures. \<open>fn\<close> takes the positional
  arguments, the keyword arguments and the context that is current while it runs, and
  returns or raises. It reads context variables and does not set them, and it does not
  touch the future of its own call.
\<close>

record 'v call =
  future :: nat
  fn :: "'v list \<Rightarrow> (string \<times> 'v) list \<Rightarrow> 'v ctx \<Rightarrow> exc + 'v pyobj"
  args :: "'v list"
  kwargs :: "(string \<times> 'v) list"
  call_context :: "'v ctx"

text \<open>
  Modelled from the spec: \<open>prefect._internal.concurrency.primitives.Event\<close>, which is not
  among the sources. The spec calls it a level-triggered event that stays set once set;
  it has no truth value of its own, so \<open>not self._shutdown_event\<close> tests for \<open>None\<close>.
\<close>

datatype event = Event bool

fun is_set :: "event \<Rightarrow> bool" where
  "is_set (Event b) = b"

fun event_set :: "event \<Rightarrow> event" where
  "event_set (Event b) = Event True"

text \<open>
  A \<open>threading.Thread\<close> is alive from the return of \<open>start()\<close> until its target returns.
\<close>

datatype thread_state = Unstarted | Alive | Stopped

text \<open>
  An asyncio event loop as far as a worker uses it: the callbacks handed to
  \<open>call_soon_threadsafe\<close> (every one of them the \<open>run\<close> of a call), in the order of
  scheduling, and whether the loop has been closed, as \<open>asyncio.run\<close> does at its end.
\<close>

record 'v event_loop =
  scheduled :: "'v call list"
  closed :: bool

text \<open>
  \<open>Worker\<close>. The ready future is private to the worker and never has a callback, so it is
  kept by value.
\<close>

record 'v worker =
  thread_name :: string
  thread_daemon :: bool
  thread_state :: thread_state
  ready_future :: "bool future"
  loop :: "'v event_loop option"
  shutdown_event :: "event option"
  run_once :: bool
  submitted_count :: int

text \<open>
  What goes wrong while a worker thread sets itself up, chosen by the environment:
  nothing; \<open>asyncio.get_running_loop()\<close> raises its \<open>RuntimeError\<close>; the construction of
  the event raises \<open>MemoryError\<close>; \<open>asyncio.run\<close> fails before the coroutine runs; or the
  construction of the event raises an error that is not an \<open>Exception\<close> (such as
  \<open>SystemExit\<close>), which \<open>except Exception\<close> does not catch.
\<close>

datatype boot_fault = NoFault | FailGetLoop | FailEvent | FailAsyncioRun | EscapeEvent

text \<open>
  The state of the process: the store of futures and of workers (references are
  numbers, the next free one is kept), the module variable \<open>GLOBAL_WORKER\<close>, the hooks
  registered with \<open>atexit\<close>, and for the executing thread its current context and
  whether an event loop is running in it. \<open>invocations\<close> lists the contexts in which
  wrapped functions were called, one entry for each call.
\<close>

record 'v world =
  futures :: "nat \<Rightarrow> 'v future"
  next_future :: nat
  workers :: "nat \<Rightarrow> 'v worker"
  next_worker :: nat
  GLOBAL_WORKER :: "nat option"
  atexit :: "nat list"
  current_context :: "'v ctx"
  running_loop :: bool
  invocations :: "'v ctx list"
  boot_fault :: boot_fault

section \<open>Worker.shutdown and the methods of a shared future\<close>

text \<open>
  \<open>Worker.shutdown\<close> comes first because it is what a done callback runs. It returns
  without a value and has no \<open>raise\<close>.
\<close>

definition shutdown :: "nat \<Rightarrow> 'v world \<Rightarrow> (exc + unit) \<times> 'v world" where
  "shutdown self w =
     (case shutdown_event (workers w self) of
        None \<Rightarrow> (Inr (), w)
      | Some ev \<Rightarrow>
          (Inr (), w\<lparr>workers := (workers w)
                     (self := (workers w self)\<lparr>shutdown_event := Some (event_set ev)\<rparr>)\<rparr>))"

fun run_callback :: "callback \<Rightarrow> 'v world \<Rightarrow> 'v world" where
  "run_callback (ShutdownWorker wid) w = snd (shutdown wid w)"

definition invoke_callbacks :: "nat \<Rightarrow> 'v world \<Rightarrow> 'v world" where
  "invoke_callbacks fid w = fold run_callback (done_callbacks (futures w fid)) w"

definition put_future :: "nat \<Rightarrow> 'v future \<Rightarrow> 'v world \<Rightarrow> 'v world" where
  "put_future fid f w = w\<lparr>futures := (futures w)(fid := f)\<rparr>"

definition set_running_or_notify_cancel :: "nat \<Rightarrow> 'v world \<Rightarrow> (exc + bool) \<times> 'v world" where
  "set_running_or_notify_cancel fid w =
     (case fut_set_running_or_notify_cancel (futures w fid) of
        Inl e \<Rightarrow> (Inl e, w)
      | Inr (b, f) \<Rightarrow> (Inr b, put_future fid f w))"

definition set_result :: "nat \<Rightarrow> 'v pyobj \<Rightarrow> 'v world \<Rightarrow> (exc + unit) \<times> 'v world" where
  "set_result fid r w =
     (case fut_set_result r (futures w fid) of
        Inl e \<Rightarrow> (Inl e, w)
      | Inr f \<Rightarrow> (Inr (), invoke_callbacks fid (put_future fid f w)))"

definition set_exception :: "nat \<Rightarrow> exc \<Rightarrow> 'v world \<Rightarrow> (exc + unit) \<times> 'v world" where
  "set_exception fid e w =
     (case fut_set_exception e (futures w fid) of
        Inl e' \<Rightarrow> (Inl e', w)
      | Inr f \<Rightarrow> (Inr (), invoke_callbacks fid (put_future fid f w)))"

definition cancel :: "nat \<Rightarrow> 'v world \<Rightarrow> bool \<times> 'v world" where
  "cancel fid w =
     (let f = futures w fid in
      if fstate f = RUNNING \<or> fstate f = FINISHED then (False, w)
      else if fstate f = CANCELLED \<or> fstate f = CANCELLED_AND_NOTIFIED then (True, w)
      else (True, invoke_callbacks fid (put_future fid (snd (fut_cancel f)) w)))"

definition add_done_callback :: "nat \<Rightarrow> callback \<Rightarrow> 'v world \<Rightarrow> 'v world" where
  "add_done_callback fid cb w =
     (let f = futures w fid in
      if \<not> fut_done f
      then put_future fid (f\<lparr>done_callbacks := done_callbacks f @ [cb]\<rparr>) w
      else run_callback cb w)"

definition result :: "nat \<Rightarrow> 'v world \<Rightarrow> (exc + 'v pyobj) option" where
  "result fid w = fut_result (futures w fid)"

section \<open>Call\<close>

text \<open>\<open>contextvars.copy_context()\<close> copies the current context of the executing thread.\<close>

definition copy_context :: "'v world \<Rightarrow> 'v ctx" where
  "copy_context w = current_context w"

text \<open>
  \<open>Context.run(callable, ...)\<close>: the callable runs with the given context as the current
  one; afterwards the thread's own context is current again, also when the callable raised.
\<close>

definition context_run ::
  "'v ctx \<Rightarrow> ('v world \<Rightarrow> 'a \<times> 'v world) \<Rightarrow> 'v world \<Rightarrow> 'a \<times> 'v world" where
  "context_run c f w =
     (case f (w\<lparr>current_context := c\<rparr>) of
        (r, w') \<Rightarrow> (r, w'\<lparr>current_context := current_context w\<rparr>))"

text \<open>\<open>Call.new\<close>: a fresh future, the function and its arguments, a copy of the context.\<close>

definition new ::
  "('v list \<Rightarrow> (string \<times> 'v) list \<Rightarrow> 'v ctx \<Rightarrow> exc + 'v pyobj) \<Rightarrow> 'v list \<Rightarrow> (string \<times> 'v) list
     \<Rightarrow> 'v world \<Rightarrow> 'v call \<times> 'v world" where
  "new f as kws w =
     (\<lparr>future = next_future w, fn = f, args = as, kwargs = kws,
       call_context = copy_context w\<rparr>,
      w\<lparr>futures := (futures w)(next_future w := Future),
        next_future := Suc (next_future w)\<rparr>)"

text \<open>
  The call \<open>self.fn(*self.args, **self.kwargs)\<close>: the function sees the current context,
  and the call is recorded.
\<close>

definition call_fn :: "'v call \<Rightarrow> 'v world \<Rightarrow> (exc + 'v pyobj) \<times> 'v world" where
  "call_fn c w =
     (fn c (args c) (kwargs c) (current_context w),
      w\<lparr>invocations := invocations w @ [current_context w]\<rparr>)"

text \<open>
  \<open>Call._run_sync\<close>. An awaitable result is returned from inside the \<open>try\<close>, so the \<open>else\<close>
  branch does not run for it. What \<open>set_exception\<close> raises inside the handler, and what
  \<open>set_result\<close> raises in the \<open>else\<close> branch, is not caught.
\<close>

definition run_sync :: "'v call \<Rightarrow> 'v world \<Rightarrow> (exc + 'v coroutine option) \<times> 'v world" where
  "run_sync self w =
     (case context_run (call_context self) (call_fn self) w of
        (Inl e, w1) \<Rightarrow>
          (case set_exception (future self) e w1 of
             (Inl e', w2) \<Rightarrow> (Inl e', w2)
           | (Inr u, w2) \<Rightarrow> (Inr None, w2))
      | (Inr (Awaitable co), w1) \<Rightarrow> (Inr (Some co), w1)
      | (Inr r, w1) \<Rightarrow>
          (case set_result (future self) r w1 of
             (Inl e', w2) \<Rightarrow> (Inl e', w2)
           | (Inr u, w2) \<Rightarrow> (Inr None, w2)))"

text \<open>\<open>Call._run_async\<close>: the coroutine is awaited in the context of the task it runs in.\<close>

definition run_async :: "'v call \<Rightarrow> 'v coroutine \<Rightarrow> 'v world \<Rightarrow> (exc + unit) \<times> 'v world" where
  "run_async self coro w =
     (case coro (current_context w) of
        Inl e \<Rightarrow> set_exception (future self) e w
      | Inr r \<Rightarrow> set_result (future self) r w)"

text \<open>
  A task made by \<open>loop.create_task\<close> inside \<open>self.context.run\<close>: the coroutine
  \<open>self._run_async(coro)\<close> together with the copy of the current context that the task
  takes when it is created. \<open>run_task\<close> is the loop running the task; what the coroutine
  raises stays in the task.
\<close>

datatype 'v task = Task "'v call" "'v coroutine" "'v ctx"

fun run_task :: "'v task \<Rightarrow> 'v world \<Rightarrow> (exc + unit) \<times> 'v world" where
  "run_task (Task c coro tctx) w = context_run tctx (run_async c coro) w"

text \<open>
  Modelled from the spec: \<open>prefect._internal.concurrency.event_loop.get_running_loop\<close>,
  which is not among the sources, probes for an ambient running loop and gives \<open>None\<close>
  when there is none.
\<close>

definition get_running_loop :: "'v world \<Rightarrow> bool" where
  "get_running_loop w = running_loop w"

text \<open>
  \<open>Call.run\<close>. With a running loop the coroutine becomes a task, which is returned; without
  one \<open>asyncio.run\<close> runs it to its end here, in a copy of the call's context, and \<open>run\<close>
  returns the \<open>None\<close> of \<open>_run_async\<close>.
\<close>

definition run :: "'v call \<Rightarrow> 'v world \<Rightarrow> (exc + 'v task option) \<times> 'v world" where
  "run self w =
     (case set_running_or_notify_cancel (future self) w of
        (Inl e, w1) \<Rightarrow> (Inl e, w1)
      | (Inr False, w1) \<Rightarrow> (Inr None, w1)
      | (Inr True, w1) \<Rightarrow>
          (case run_sync self w1 of
             (Inl e, w2) \<Rightarrow> (Inl e, w2)
           | (Inr None, w2) \<Rightarrow> (Inr None, w2)
           | (Inr (Some coro), w2) \<Rightarrow>
               if get_running_loop w2
               then (Inr (Some (Task self coro (call_context self))), w2)
               else (case context_run (call_context self) (run_async self coro) w2 of
                       (Inl e, w3) \<Rightarrow> (Inl e, w3)
                     | (Inr u, w3) \<Rightarrow> (Inr None, w3))))"

text \<open>
  \<open>Call.__call__\<close>: the value, or the awaitable \<open>run_and_return_result()\<close> when \<open>run\<close> gave a
  task. \<open>None\<close> in the first component is a \<open>future.result()\<close> that waits for ever.
\<close>

datatype 'v returned = Value "'v pyobj" | RunAndReturnResult "'v call" "'v task"

definition dunder_call :: "'v call \<Rightarrow> 'v world \<Rightarrow> (exc + 'v returned) option \<times> 'v world" where
  "dunder_call self w =
     (case run self w of
        (Inl e, w1) \<Rightarrow> (Some (Inl e), w1)
      | (Inr (Some t), w1) \<Rightarrow> (Some (Inr (RunAndReturnResult self t)), w1)
      | (Inr None, w1) \<Rightarrow> (map_option (map_sum id Value) (result (future self) w1), w1))"

text \<open>
  Awaiting \<open>run_and_return_result()\<close>: \<open>await coro\<close> ends when the loop has run the task
  (and raises what the task raised), then \<open>self.future.result()\<close> is returned.
\<close>

definition run_and_return_result ::
  "'v call \<Rightarrow> 'v task \<Rightarrow> 'v world \<Rightarrow> (exc + 'v pyobj) option \<times> 'v world" where
  "run_and_return_result self t w =
     (case run_task t w of
        (Inl e, w1) \<Rightarrow> (Some (Inl e), w1)
      | (Inr u, w1) \<Rightarrow> (result (future self) w1, w1))"

text \<open>
  The result channel of the spec, read off a future: pending until a terminal state is
  reached, then cancelled, fulfilled with a value or failed with an error.
\<close>

datatype 'v channel = Pending | Cancelled | Fulfilled "'v pyobj" | Failed exc

definition resultChannel :: "'v future \<Rightarrow> 'v channel" where
  "resultChannel f =
     (case fstate f of
        PENDING \<Rightarrow> Pending
      | RUNNING \<Rightarrow> Pending
      | CANCELLED \<Rightarrow> Cancelled
      | CANCELLED_AND_NOTIFIED \<Rightarrow> Cancelled
      | FINISHED \<Rightarrow> (case fexception f of Some e \<Rightarrow> Failed e | None \<Rightarrow> Fulfilled (fresult f)))"

section \<open>Worker\<close>

text \<open>
  \<open>Worker.__init__\<close>: the fields of a new worker, then its place in the store. A worker
  that is not a daemon registers its \<open>shutdown\<close> with \<open>atexit\<close>.
\<close>

definition Worker :: "string \<Rightarrow> bool \<Rightarrow> bool \<Rightarrow> 'v worker" where
  "Worker name daemon once =
     \<lparr>thread_name = name, thread_daemon = daemon, thread_state = Unstarted,
      ready_future = Future, loop = None, shutdown_event = None,
      run_once = once, submitted_count = 0\<rparr>"

definition Worker_init :: "string \<Rightarrow> bool \<Rightarrow> bool \<Rightarrow> 'v world \<Rightarrow> nat \<times> 'v world" where
  "Worker_init name daemon once w =
     (let self = next_worker w;
          w1 = w\<lparr>workers := (workers w)(self := Worker name daemon once),
                 next_worker := Suc self\<rparr>
      in (self, if \<not> daemon then w1\<lparr>atexit := atexit w1 @ [self]\<rparr> else w1))"

definition put_worker :: "nat \<Rightarrow> 'v worker \<Rightarrow> 'v world \<Rightarrow> 'v world" where
  "put_worker self wk w = w\<lparr>workers := (workers w)(self := wk)\<rparr>"

text \<open>
  The handler \<open>except Exception as exc\<close> of \<open>_run_until_shutdown\<close>: the error goes to the
  ready future and the coroutine returns, which ends the thread and closes its loop. If
  \<open>set_exception\<close> raises in turn, the thread ends with that error.
\<close>

definition close_loop :: "'v worker \<Rightarrow> 'v worker" where
  "close_loop wk =
     wk\<lparr>thread_state := Stopped, loop := map_option (\<lambda>l. l\<lparr>closed := True\<rparr>) (loop wk)\<rparr>"

definition setup_failed :: "exc \<Rightarrow> 'v worker \<Rightarrow> 'v worker" where
  "setup_failed e wk =
     (case fut_set_exception e (ready_future wk) of
        Inr f \<Rightarrow> close_loop (wk\<lparr>ready_future := f\<rparr>)
      | Inl e' \<Rightarrow> close_loop wk)"

text \<open>
  \<open>Worker._run_until_shutdown\<close>, run by the worker thread, up to the point where it
  suspends in \<open>await self._shutdown_event.wait()\<close> with the thread alive. An error that
  the handler does not catch leaves the coroutine; \<open>_entrypoint\<close> logs it and raises it
  again, so the thread ends and the ready future is left as it was. The same happens
  when \<open>asyncio.run\<close> fails before the coroutine runs.
\<close>

definition run_until_shutdown :: "nat \<Rightarrow> 'v world \<Rightarrow> 'v world" where
  "run_until_shutdown self w =
     (let wk = workers w self in
      case boot_fault w of
        FailGetLoop \<Rightarrow>
          put_worker self (setup_failed (RuntimeError ''no running event loop'') wk) w
      | FailEvent \<Rightarrow>
          put_worker self
            (setup_failed MemoryError (wk\<lparr>loop := Some \<lparr>scheduled = [], closed = False\<rparr>\<rparr>)) w
      | FailAsyncioRun \<Rightarrow> put_worker self (wk\<lparr>thread_state := Stopped\<rparr>) w
      | EscapeEvent \<Rightarrow>
          put_worker self
            (close_loop (wk\<lparr>loop := Some \<lparr>scheduled = [], closed = False\<rparr>\<rparr>)) w
      | NoFault \<Rightarrow>
          (let wk2 = wk\<lparr>loop := Some \<lparr>scheduled = [], closed = False\<rparr>,
                         shutdown_event := Some (Event False)\<rparr>
           in case fut_set_result (Plain True) (ready_future wk2) of
                Inr f \<Rightarrow> put_worker self (wk2\<lparr>ready_future := f, thread_state := Alive\<rparr>) w
              | Inl e \<Rightarrow> put_worker self (setup_failed e wk2) w))"

text \<open>
  The rest of \<open>_run_until_shutdown\<close>: once the event is set the wait returns, the coroutine
  and with it \<open>asyncio.run\<close> and the thread's target return.
\<close>

definition wait_returns :: "nat \<Rightarrow> 'v world \<Rightarrow> 'v world" where
  "wait_returns self w =
     (let wk = workers w self in
      case shutdown_event wk of
        None \<Rightarrow> w
      | Some ev \<Rightarrow>
          if thread_state wk = Alive \<and> is_set ev then put_worker self (close_loop wk) w else w)"

text \<open>
  \<open>Worker._entrypoint\<close> runs the coroutine in a new loop; an error is logged and raised
  again, in the worker thread.
\<close>

definition entrypoint :: "nat \<Rightarrow> 'v world \<Rightarrow> 'v world" where
  "entrypoint self w = run_until_shutdown self w"

text \<open>
  \<open>Worker.start\<close>: \<open>Thread.start()\<close> refuses a thread that was started before; then the
  caller waits on the ready future. \<open>None\<close> is a wait that does not end: the thread has
  ended without a result or an exception on the ready future.
\<close>

definition start :: "nat \<Rightarrow> 'v world \<Rightarrow> (exc + unit) option \<times> 'v world" where
  "start self w =
     (if thread_state (workers w self) \<noteq> Unstarted
      then (Some (Inl (RuntimeError ''threads can only be started once'')), w)
      else (let w1 = entrypoint self w
            in (map_option (map_sum id (\<lambda>r. ())) (fut_result (ready_future (workers w1 self))),
                w1)))"

text \<open>
  \<open>loop.call_soon_threadsafe(callback)\<close>: refused by a closed loop; on \<open>None\<close> the attribute
  lookup fails.
\<close>

definition call_soon_threadsafe :: "'v call \<Rightarrow> 'v worker \<Rightarrow> exc + 'v worker" where
  "call_soon_threadsafe c wk =
     (case loop wk of
        None \<Rightarrow> Inl (AttributeError ''call_soon_threadsafe'')
      | Some l \<Rightarrow>
          if closed l then Inl (RuntimeError ''Event loop is closed'')
          else Inr (wk\<lparr>loop := Some (l\<lparr>scheduled := scheduled l @ [c]\<rparr>)\<rparr>))"

definition RunOnceExhausted :: exc where
  "RunOnceExhausted =
     RuntimeError ''Worker configured to only run once. A call has already been submitted.''"

definition WorkerShutdown :: exc where
  "WorkerShutdown = RuntimeError ''Worker is shutdown.''"

text \<open>\<open>Worker.submit\<close>, statement by statement.\<close>

definition submit :: "nat \<Rightarrow> 'v call \<Rightarrow> 'v world \<Rightarrow> (exc + unit) option \<times> 'v world" where
  "submit self c w =
     (if submitted_count (workers w self) > 0 \<and> run_once (workers w self)
      then (Some (Inl RunOnceExhausted), w)
      else
        (case (if shutdown_event (workers w self) = None then start self w
               else (Some (Inr ()), w)) of
           (None, w1) \<Rightarrow> (None, w1)
         | (Some (Inl e), w1) \<Rightarrow> (Some (Inl e), w1)
         | (Some (Inr u), w1) \<Rightarrow>
             (case shutdown_event (workers w1 self) of
                None \<Rightarrow> (Some (Inl (AttributeError ''is_set'')), w1)
              | Some ev \<Rightarrow>
                  if is_set ev then (Some (Inl WorkerShutdown), w1)
                  else
                    (case call_soon_threadsafe c (workers w1 self) of
                       Inl e \<Rightarrow> (Some (Inl e), w1)
                     | Inr wk \<Rightarrow>
                         (let w2 = put_worker self
                                     (wk\<lparr>submitted_count := submitted_count wk + 1\<rparr>) w1
                          in (Some (Inr ()),
                              if run_once (workers w2 self)
                              then add_done_callback (future c) (ShutdownWorker self) w2
                              else w2))))))"

section \<open>The global worker\<close>

text \<open>
  \<open>get_global_worker\<close>. The module variable is read again for \<open>GLOBAL_WORKER.start()\<close> and
  for the \<open>return\<close>, as in the source.
\<close>

definition is_alive :: "'v worker \<Rightarrow> bool" where
  "is_alive wk = (thread_state wk = Alive)"

definition needs_new_worker :: "'v world \<Rightarrow> bool" where
  "needs_new_worker w =
     (case GLOBAL_WORKER w of None \<Rightarrow> True | Some g \<Rightarrow> \<not> is_alive (workers w g))"

definition assign_new_worker :: "'v world \<Rightarrow> 'v world" where
  "assign_new_worker w =
     (case Worker_init ''GlobalWorkerThread'' True False w of
        (g, w1) \<Rightarrow> w1\<lparr>GLOBAL_WORKER := Some g\<rparr>)"

definition start_global :: "'v world \<Rightarrow> (exc + unit) option \<times> 'v world" where
  "start_global w =
     (case GLOBAL_WORKER w of
        None \<Rightarrow> (Some (Inl (AttributeError ''start'')), w)
      | Some g \<Rightarrow> start g w)"


text \<open>
  Threads calling \<open>get_global_worker\<close> at the same time. Each thread is at one of the
  four statements of the function (named by their lines in \<open>workers.py\<close>), waits for
  ever in \<open>start\<close>, or has left the function; a step runs one statement of one thread on
  the shared state, and a schedule is the list of the threads that step, in order.
\<close>

datatype pc =
    Line223
  | Line224
  | Line225
  | Line227
  | Blocked
  | Exited "exc + nat option"

record 'v threads =
  shared :: "'v world"
  pcs :: "nat \<Rightarrow> pc"

definition goto :: "nat \<Rightarrow> pc \<Rightarrow> 'v world \<Rightarrow> 'v threads \<Rightarrow> 'v threads" where
  "goto t p w s = \<lparr>shared = w, pcs = (pcs s)(t := p)\<rparr>"

definition step :: "nat \<Rightarrow> 'v threads \<Rightarrow> 'v threads" where
  "step t s =
     (case pcs s t of
        Line223 \<Rightarrow>
          if needs_new_worker (shared s) then goto t Line224 (shared s) s
          else goto t Line227 (shared s) s
      | Line224 \<Rightarrow> goto t Line225 (assign_new_worker (shared s)) s
      | Line225 \<Rightarrow>
          (case start_global (shared s) of
             (None, w) \<Rightarrow> goto t Blocked w s
           | (Some (Inl e), w) \<Rightarrow> goto t (Exited (Inl e)) w s
           | (Some (Inr u), w) \<Rightarrow> goto t Line227 w s)
      | Line227 \<Rightarrow> goto t (Exited (Inr (GLOBAL_WORKER (shared s)))) (shared s) s
      | Blocked \<Rightarrow> s
      | Exited r \<Rightarrow> s)"


section \<open>Well-formed workers\<close>

text \<open>
  What holds of every worker that was made by \<open>Worker.__init__\<close> and used through its
  methods: before its thread is started it has a new ready future, no loop and no
  event; the event is made after the loop; and as long as the event is not set the
  thread is alive and its loop open.
\<close>

definition wf_worker :: "'v worker \<Rightarrow> bool" where
  "wf_worker wk =
     ((thread_state wk = Unstarted \<longrightarrow>
         ready_future wk = Future \<and> loop wk = None \<and> shutdown_event wk = None)
      \<and> (case shutdown_event wk of
            None \<Rightarrow> True
          | Some ev \<Rightarrow>
              (case loop wk of
                 None \<Rightarrow> False
               | Some l \<Rightarrow> is_set ev \<or> (thread_state wk = Alive \<and> \<not> closed l))))"

section \<open>Example processes and functions\<close>

text \<open>A process in which nothing has happened yet, and the functions of the spec's scenarios.\<close>

definition process0 :: "int world" where
  "process0 =
     \<lparr>futures = (\<lambda>i. Future), next_future = 0,
      workers = (\<lambda>i. Worker ''WorkerThread'' False False), next_worker = 0,
      GLOBAL_WORKER = None, atexit = [], current_context = Map.empty,
      running_loop = False, invocations = [], boot_fault = NoFault\<rparr>"

definition one_plus_one :: "int list \<Rightarrow> (string \<times> int) list \<Rightarrow> int ctx \<Rightarrow> exc + int pyobj" where
  "one_plus_one as kws c = Inr (Plain (1 + 1))"

definition raise_value_error :: "int list \<Rightarrow> (string \<times> int) list \<Rightarrow> int ctx \<Rightarrow> exc + int pyobj" where
  "raise_value_error as kws c = Inl (ValueError ''x'')"

definition raise_falsy_error :: "int list \<Rightarrow> (string \<times> int) list \<Rightarrow> int ctx \<Rightarrow> exc + int pyobj" where
  "raise_falsy_error as kws c = Inl (FalsyError ''x'')"

definition read_request_id :: "int list \<Rightarrow> (string \<times> int) list \<Rightarrow> int ctx \<Rightarrow> exc + int pyobj" where
  "read_request_id as kws c =
     Inr (case c ''request_id'' of None \<Rightarrow> PyNone | Some v \<Rightarrow> Plain v)"

definition two_later :: "int coroutine" where
  "two_later c = Inr (Plain (1 + 1))"

definition async_one_plus_one ::
  "int list \<Rightarrow> (string \<times> int) list \<Rightarrow> int ctx \<Rightarrow> exc + int pyobj" where
  "async_one_plus_one as kws c = Inr (Awaitable two_later)"

text \<open>A call of a function without arguments, made in \<open>process0\<close>, and the process after it.\<close>

definition example_call ::
  "(int list \<Rightarrow> (string \<times> int) list \<Rightarrow> int ctx \<Rightarrow> exc + int pyobj) \<Rightarrow> int call" where
  "example_call f = fst (new f [] [] process0)"

definition example_world ::
  "(int list \<Rightarrow> (string \<times> int) list \<Rightarrow> int ctx \<Rightarrow> exc + int pyobj) \<Rightarrow> int world" where
  "example_world f = snd (new f [] [] process0)"

text \<open>The future after \<open>set_result\<close> or \<open>set_exception\<close> with the outcome of the function.\<close>

definition resolved :: "'v future \<Rightarrow> exc + 'v pyobj \<Rightarrow> 'v future" where
  "resolved f out =
     (case out of
        Inl e \<Rightarrow> f\<lparr>fexception := Some e, fstate := FINISHED,
                    notifications := notifications f + 1\<rparr>
      | Inr r \<Rightarrow> f\<lparr>fresult := r, fstate := FINISHED,
                    notifications := notifications f + 1\<rparr>)"

text \<open>
  A submitter whose context holds a request id, and the process when a worker thread
  with another request id in its own context is about to run the submitted call.
\<close>

definition submitting :: "int world" where
  "submitting = process0\<lparr>current_context := [''request_id'' \<mapsto> 7]\<rparr>"

definition executing :: "int world" where
  "executing =
     (snd (new read_request_id [] [] submitting))\<lparr>current_context := [''request_id'' \<mapsto> 99]\<rparr>"

section \<open>Workers in examples and in the statements below\<close>

text \<open>
  How \<open>start\<close> ends on a new worker, by what goes wrong in the thread's setup: it
  returns, it raises the error that the handler put on the ready future, or it waits
  for ever (\<open>None\<close>).
\<close>

definition start_outcome :: "boot_fault \<Rightarrow> (exc + unit) option" where
  "start_outcome b =
     (case b of
        NoFault \<Rightarrow> Some (Inr ())
      | FailGetLoop \<Rightarrow> Some (Inl (RuntimeError ''no running event loop''))
      | FailEvent \<Rightarrow> Some (Inl MemoryError)
      | FailAsyncioRun \<Rightarrow> None
      | EscapeEvent \<Rightarrow> None)"

text \<open>The callbacks scheduled on a worker's loop; none before there is a loop.\<close>

definition scheduled_calls :: "'v worker \<Rightarrow> 'v call list" where
  "scheduled_calls wk = (case loop wk of None \<Rightarrow> [] | Some l \<Rightarrow> scheduled l)"

text \<open>A new worker after a \<open>start\<close> in which nothing went wrong.\<close>

definition started :: "'v worker \<Rightarrow> 'v worker" where
  "started wk =
     wk\<lparr>loop := Some \<lparr>scheduled = [], closed = False\<rparr>,
        shutdown_event := Some (Event False),
        ready_future := Future\<lparr>fresult := Plain True, fstate := FINISHED, notifications := 1\<rparr>,
        thread_state := Alive\<rparr>"

text \<open>The process after \<open>submit\<close> has scheduled a call on the loop \<open>l\<close> of a worker.\<close>

definition accepted :: "nat \<Rightarrow> 'v call \<Rightarrow> 'v event_loop \<Rightarrow> 'v world \<Rightarrow> 'v world" where
  "accepted self c l w =
     (let w2 = put_worker self ((workers w self)
                 \<lparr>loop := Some (l\<lparr>scheduled := scheduled l @ [c]\<rparr>),
                  submitted_count := submitted_count (workers w self) + 1\<rparr>) w
      in if run_once (workers w self)
         then add_done_callback (future c) (ShutdownWorker self) w2 else w2)"

text \<open>
  Processes with one worker that was not started yet: an ordinary one, one that runs
  once, and an ordinary one in a process where the construction of the event will fail.
\<close>

definition worker_process :: "int world" where
  "worker_process = snd (Worker_init ''WorkerThread'' False False (example_world one_plus_one))"

definition once_process :: "int world" where
  "once_process = snd (Worker_init ''WorkerThread'' False True (example_world one_plus_one))"

definition faulty_process :: "int world" where
  "faulty_process = worker_process\<lparr>boot_fault := FailEvent\<rparr>"


text \<open>The process after \<open>get_global_worker\<close> has made, cached and started a new worker.\<close>

definition with_global_worker :: "'v world \<Rightarrow> 'v world" where
  "with_global_worker w =
     w\<lparr>workers := (workers w)
          (next_worker w := started (Worker ''GlobalWorkerThread'' True False)),
       next_worker := Suc (next_worker w),
       GLOBAL_WORKER := Some (next_worker w)\<rparr>"


section \<open>Done callbacks change workers only\<close>

lemma shutdown_only_workers:
  "snd (shutdown wid w) = w\<lparr>workers := workers (snd (shutdown wid w))\<rparr>"
  by (simp add: shutdown_def split: option.splits)

lemma callbacks_only_workers:
  "fold run_callback cbs w = w\<lparr>workers := workers (fold run_callback cbs w)\<rparr>"
proof (induction cbs arbitrary: w)
  case Nil
  show ?case by simp
next
  case (Cons cb cbs)
  obtain wid where cb: "cb = ShutdownWorker wid" by (cases cb)
  have "fold run_callback (cb # cbs) w = fold run_callback cbs (snd (shutdown wid w))"
    by (simp add: cb)
  also have "\<dots> = (snd (shutdown wid w))\<lparr>workers := workers (fold run_callback cbs (snd (shutdown wid w)))\<rparr>"
    by (rule Cons.IH)
  also have "\<dots> = w\<lparr>workers := workers (fold run_callback cbs (snd (shutdown wid w)))\<rparr>"
    by (subst shutdown_only_workers) simp
  finally show ?case by (simp add: cb)
qed

lemma invoke_callbacks_only_workers:
  "invoke_callbacks fid w = w\<lparr>workers := workers (invoke_callbacks fid w)\<rparr>"
  unfolding invoke_callbacks_def by (rule callbacks_only_workers)

lemma invoke_callbacks_futures [simp]: "futures (invoke_callbacks fid w) = futures w"
  by (subst invoke_callbacks_only_workers) simp

lemma invoke_callbacks_invocations [simp]: "invocations (invoke_callbacks fid w) = invocations w"
  by (subst invoke_callbacks_only_workers) simp

lemma invoke_callbacks_current_context [simp]:
  "current_context (invoke_callbacks fid w) = current_context w"
  by (subst invoke_callbacks_only_workers) simp

lemma invoke_callbacks_running_loop [simp]: "running_loop (invoke_callbacks fid w) = running_loop w"
  by (subst invoke_callbacks_only_workers) simp

lemma invoke_callbacks_no_callbacks:
  "done_callbacks (futures w fid) = [] \<Longrightarrow> invoke_callbacks fid w = w"
  by (simp add: invoke_callbacks_def)

section \<open>Context.run\<close>

lemma fst_context_run: "fst (context_run c f w) = fst (f (w\<lparr>current_context := c\<rparr>))"
  by (simp add: context_run_def split: prod.splits)

lemma snd_context_run:
  "snd (context_run c f w) = (snd (f (w\<lparr>current_context := c\<rparr>)))\<lparr>current_context := current_context w\<rparr>"
  by (simp add: context_run_def split: prod.splits)

section \<open>Call.run, case by case\<close>

lemma resolved_running [simp]: "resolved (f\<lparr>fstate := RUNNING\<rparr>) out = resolved f out"
  by (simp add: resolved_def split: sum.splits)

lemma run_cancelled:
  assumes "fstate (futures w (future c)) = CANCELLED"
  shows "run c w = (Inr None, put_future (future c) ((futures w (future c))\<lparr>fstate := CANCELLED_AND_NOTIFIED\<rparr>) w)"
  using assms
  by (simp add: run_def set_running_or_notify_cancel_def fut_set_running_or_notify_cancel_def)

lemma run_unexpected:
  assumes "fstate (futures w (future c)) \<noteq> CANCELLED" "fstate (futures w (future c)) \<noteq> PENDING"
  shows "run c w = (Inl (RuntimeError ''Future in unexpected state''), w)"
  using assms
  by (simp add: run_def set_running_or_notify_cancel_def fut_set_running_or_notify_cancel_def)

lemma run_pending_raises:
  assumes "fstate (futures w (future c)) = PENDING"
    and "fn c (args c) (kwargs c) (call_context c) = Inl e"
  shows "fst (run c w) = Inr None"
    and "futures (snd (run c w)) = (futures w)(future c := resolved (futures w (future c)) (Inl e))"
    and "invocations (snd (run c w)) = invocations w @ [call_context c]"
    and "current_context (snd (run c w)) = current_context w"
  using assms
  by (simp_all add: run_def run_sync_def set_running_or_notify_cancel_def
      fut_set_running_or_notify_cancel_def context_run_def call_fn_def set_exception_def
      fut_set_exception_def fut_done_def put_future_def resolved_def)

lemma run_pending_returns:
  assumes "fstate (futures w (future c)) = PENDING"
    and "fn c (args c) (kwargs c) (call_context c) = Inr r" and "\<not> isawaitable r"
  shows "fst (run c w) = Inr None"
    and "futures (snd (run c w)) = (futures w)(future c := resolved (futures w (future c)) (Inr r))"
    and "invocations (snd (run c w)) = invocations w @ [call_context c]"
    and "current_context (snd (run c w)) = current_context w"
  using assms
  by (cases r; simp add: run_def run_sync_def set_running_or_notify_cancel_def
      fut_set_running_or_notify_cancel_def context_run_def call_fn_def set_result_def
      fut_set_result_def fut_done_def put_future_def resolved_def)+

lemma run_pending_awaitable_loop:
  assumes "fstate (futures w (future c)) = PENDING"
    and "fn c (args c) (kwargs c) (call_context c) = Inr (Awaitable co)"
    and "running_loop w"
  shows "fst (run c w) = Inr (Some (Task c co (call_context c)))"
    and "futures (snd (run c w)) = (futures w)(future c := (futures w (future c))\<lparr>fstate := RUNNING\<rparr>)"
    and "invocations (snd (run c w)) = invocations w @ [call_context c]"
    and "current_context (snd (run c w)) = current_context w"
  using assms
  by (simp_all add: run_def run_sync_def set_running_or_notify_cancel_def
      fut_set_running_or_notify_cancel_def context_run_def call_fn_def put_future_def
      get_running_loop_def)

lemma set_outcome:
  assumes "\<not> fut_done (futures w fid)"
  shows "fst (case out of Inl e \<Rightarrow> set_exception fid e w | Inr r \<Rightarrow> set_result fid r w) = Inr ()"
    and "futures (snd (case out of Inl e \<Rightarrow> set_exception fid e w | Inr r \<Rightarrow> set_result fid r w))
         = (futures w)(fid := resolved (futures w fid) out)"
    and "invocations (snd (case out of Inl e \<Rightarrow> set_exception fid e w | Inr r \<Rightarrow> set_result fid r w))
         = invocations w"
    and "current_context (snd (case out of Inl e \<Rightarrow> set_exception fid e w | Inr r \<Rightarrow> set_result fid r w))
         = current_context w"
  using assms
  by (cases out; simp add: set_exception_def set_result_def fut_set_exception_def
      fut_set_result_def put_future_def resolved_def)+

lemma run_async_not_done:
  assumes "\<not> fut_done (futures w (future c))"
  shows "fst (run_async c co w) = Inr ()"
    and "futures (snd (run_async c co w))
         = (futures w)(future c := resolved (futures w (future c)) (co (current_context w)))"
    and "invocations (snd (run_async c co w)) = invocations w"
    and "current_context (snd (run_async c co w)) = current_context w"
  unfolding run_async_def using set_outcome [OF assms, of "co (current_context w)"]
  by simp_all

lemma run_task_not_done:
  assumes "\<not> fut_done (futures w (future c))"
  shows "fst (run_task (Task c co tctx) w) = Inr ()"
    and "futures (snd (run_task (Task c co tctx) w))
         = (futures w)(future c := resolved (futures w (future c)) (co tctx))"
    and "invocations (snd (run_task (Task c co tctx) w)) = invocations w"
    and "current_context (snd (run_task (Task c co tctx) w)) = current_context w"
proof -
  have nd: "\<not> fut_done (futures (w\<lparr>current_context := tctx\<rparr>) (future c))"
    using assms by simp
  note ra = run_async_not_done [OF nd, of co]
  show "fst (run_task (Task c co tctx) w) = Inr ()"
    using ra(1) by (simp add: fst_context_run)
  show "futures (snd (run_task (Task c co tctx) w))
         = (futures w)(future c := resolved (futures w (future c)) (co tctx))"
    using ra(2) by (simp add: snd_context_run)
  show "invocations (snd (run_task (Task c co tctx) w)) = invocations w"
    using ra(3) by (simp add: snd_context_run)
  show "current_context (snd (run_task (Task c co tctx) w)) = current_context w"
    by (simp add: snd_context_run)
qed

lemma run_pending_awaitable_noloop:
  assumes "fstate (futures w (future c)) = PENDING"
    and "fn c (args c) (kwargs c) (call_context c) = Inr (Awaitable co)"
    and "\<not> running_loop w"
  shows "fst (run c w) = Inr None"
    and "futures (snd (run c w))
         = (futures w)(future c := resolved (futures w (future c)) (co (call_context c)))"
    and "invocations (snd (run c w)) = invocations w @ [call_context c]"
    and "current_context (snd (run c w)) = current_context w"
proof -
  let ?w1 = "(put_future (future c) ((futures w (future c))\<lparr>fstate := RUNNING\<rparr>) w)
               \<lparr>invocations := invocations w @ [call_context c]\<rparr>"
  have nd: "\<not> fut_done (futures ?w1 (future c))"
    by (simp add: put_future_def fut_done_def)
  note rt = run_task_not_done [OF nd, of co "call_context c"]
  have run_eq: "run c w = (case run_task (Task c co (call_context c)) ?w1 of
                   (Inl e, w3) \<Rightarrow> (Inl e, w3) | (Inr u, w3) \<Rightarrow> (Inr None, w3))"
    using assms
    by (simp add: run_def run_sync_def set_running_or_notify_cancel_def
      fut_set_running_or_notify_cancel_def context_run_def call_fn_def put_future_def
      get_running_loop_def)
  obtain r3 w3 where r3: "run_task (Task c co (call_context c)) ?w1 = (r3, w3)"
    by (cases "run_task (Task c co (call_context c)) ?w1")
  have "r3 = Inr ()" using rt(1) r3 by simp
  with run_eq r3 have eq: "run c w = (Inr None, w3)" by simp
  show "fst (run c w) = Inr None" by (simp add: eq)
  show "futures (snd (run c w))
         = (futures w)(future c := resolved (futures w (future c)) (co (call_context c)))"
    using rt(2) r3 by (simp add: eq put_future_def)
  show "invocations (snd (run c w)) = invocations w @ [call_context c]"
    using rt(3) r3 by (simp add: eq put_future_def)
  show "current_context (snd (run c w)) = current_context w"
    using rt(4) r3 by (simp add: eq put_future_def)
qed

lemma resolved_facts [simp]:
  "notifications (resolved f out) = notifications f + 1"
  "fstate (resolved f out) = FINISHED"
  "resultChannel (resolved f out) \<noteq> Pending"
  "fexception (resolved f (Inl e)) = Some e"
  "fexception (resolved f (Inr r)) = fexception f"
  "fresult (resolved f (Inr r)) = r"
  "done_callbacks (resolved f out) = done_callbacks f"
  by (simp_all add: resolved_def resultChannel_def split: sum.splits option.splits)

lemma dunder_call_no_task:
  assumes "fst (run c w) = Inr None"
  shows "fst (dunder_call c w) = map_option (map_sum id Value) (result (future c) (snd (run c w)))"
    and "snd (dunder_call c w) = snd (run c w)"
  using assms by (cases "run c w"; simp add: dunder_call_def)+

section \<open>The example calls\<close>

lemma example_call_simps [simp]:
  "future (example_call f) = 0" "fn (example_call f) = f" "args (example_call f) = []"
  "kwargs (example_call f) = []" "call_context (example_call f) = Map.empty"
  by (simp_all add: example_call_def new_def process0_def copy_context_def)

lemma example_world_simps [simp]:
  "futures (example_world f) = (\<lambda>i. Future)(0 := Future)" "invocations (example_world f) = []"
  "current_context (example_world f) = Map.empty" "running_loop (example_world f) = False"
  by (simp_all add: example_world_def new_def process0_def)

section \<open>The result channel\<close>

text \<open>
  C1: the result channel of a call changes at most once, from pending to one terminal
  state. Whatever the future's state when \<open>run\<close> starts and whatever the function does:
  \<open>run\<close> never fails with \<open>InvalidStateError\<close>, that is, it never tries to set a channel
  that is already terminal; at most one terminal transition happens; none happens when
  the channel was already terminal; a pending call whose \<open>run\<close> returns nothing has
  made exactly one; and when \<open>run\<close> returns a task, nothing has been set yet and the
  task, run by the loop, makes exactly one.
\<close>

theorem result_channel_resolved_at_most_once:
  assumes "run c w = (r, w1)"
  shows "r \<noteq> Inl InvalidStateError
     \<and> notifications (futures w1 (future c)) \<le> notifications (futures w (future c)) + 1
     \<and> (resultChannel (futures w (future c)) \<noteq> Pending \<longrightarrow>
          resultChannel (futures w1 (future c)) = resultChannel (futures w (future c))
          \<and> notifications (futures w1 (future c)) = notifications (futures w (future c)))
     \<and> (fstate (futures w (future c)) = PENDING \<and> r = Inr None \<longrightarrow>
          resultChannel (futures w1 (future c)) \<noteq> Pending
          \<and> notifications (futures w1 (future c)) = notifications (futures w (future c)) + 1)
     \<and> (\<forall>t w' r2 w2.
          r = Inr (Some t) \<and> futures w' (future c) = futures w1 (future c)
          \<and> run_task t w' = (r2, w2) \<longrightarrow>
            r2 = Inr ()
            \<and> notifications (futures w1 (future c)) = notifications (futures w (future c))
            \<and> notifications (futures w2 (future c)) = notifications (futures w (future c)) + 1
            \<and> resultChannel (futures w2 (future c)) \<noteq> Pending)"
proof -
  let ?f = "futures w (future c)"
  consider (cancelled) "fstate ?f = CANCELLED"
    | (unexpected) "fstate ?f \<noteq> CANCELLED" "fstate ?f \<noteq> PENDING"
    | (pending) "fstate ?f = PENDING"
    by blast
  then show ?thesis
  proof cases
    case cancelled
    show ?thesis
      using assms run_cancelled [OF cancelled]
      by (auto simp: put_future_def resultChannel_def cancelled)
  next
    case unexpected
    show ?thesis
      using assms run_unexpected [OF unexpected] by auto
  next
    case pending
    have ch: "resultChannel ?f = Pending"
      by (simp add: resultChannel_def pending)
    show ?thesis
    proof (cases "fn c (args c) (kwargs c) (call_context c)")
      case (Inl e)
      show ?thesis
        using assms run_pending_raises [OF pending Inl] ch by simp
    next
      case (Inr res)
      show ?thesis
      proof (cases "isawaitable res")
        case False
        show ?thesis
          using assms run_pending_returns [OF pending Inr False] ch by simp
      next
        case True
        then obtain co where res: "res = Awaitable co"
          by (cases res) simp_all
        note aw = Inr [unfolded res]
        show ?thesis
        proof (cases "running_loop w")
          case False
          show ?thesis
            using assms run_pending_awaitable_noloop [OF pending aw False] ch by simp
        next
          case True
          note facts = run_pending_awaitable_loop [OF pending aw True]
          have r: "r = Inr (Some (Task c co (call_context c)))"
            and f1: "futures w1 (future c) = ?f\<lparr>fstate := RUNNING\<rparr>"
            using assms facts by simp_all
          have task: "r2 = Inr ()
              \<and> notifications (futures w2 (future c)) = notifications ?f + 1
              \<and> resultChannel (futures w2 (future c)) \<noteq> Pending"
            if same: "futures w' (future c) = futures w1 (future c)"
              and rt: "run_task (Task c co (call_context c)) w' = (r2, w2)"
            for w' r2 w2
          proof -
            have nd: "\<not> fut_done (futures w' (future c))"
              by (simp add: same f1 fut_done_def)
            show ?thesis
              using run_task_not_done [OF nd, of co "call_context c"] rt
              by (simp add: same f1)
          qed
          show ?thesis
            using task by (simp add: r f1 ch) blast
        qed
      qed
    qed
  qed
qed

theorem result_channel_resolved_at_most_once_witness:
  "resultChannel (futures (snd (cancel 0 (example_world one_plus_one))) 0) \<noteq> Pending
   \<and> notifications (futures (snd (run (example_call one_plus_one)
        (snd (cancel 0 (example_world one_plus_one))))) 0)
      = notifications (futures (snd (cancel 0 (example_world one_plus_one))) 0)
   \<and> fst (run (example_call async_one_plus_one)
        ((example_world async_one_plus_one)\<lparr>running_loop := True\<rparr>))
      = Inr (Some (Task (example_call async_one_plus_one) two_later Map.empty))
   \<and> notifications (futures (snd (run_task
        (Task (example_call async_one_plus_one) two_later Map.empty)
        (snd (run (example_call async_one_plus_one)
           ((example_world async_one_plus_one)\<lparr>running_loop := True\<rparr>))))) 0) = 1"
proof -
  let ?c = "example_call one_plus_one"
  let ?wc = "snd (cancel 0 (example_world one_plus_one))"
  let ?a = "example_call async_one_plus_one"
  let ?wl = "(example_world async_one_plus_one)\<lparr>running_loop := True\<rparr>"
  let ?t = "Task ?a two_later Map.empty"
  have h1: "resultChannel (futures ?wc (future ?c)) \<noteq> Pending"
    by (simp add: cancel_def fut_cancel_def Future_def put_future_def resultChannel_def)
  have h2: "fst (run ?a ?wl) = Inr (Some ?t)"
    using run_pending_awaitable_loop(1) [of ?wl ?a two_later]
    by (simp add: Future_def async_one_plus_one_def)
  have n0: "notifications (futures ?wl (future ?a)) = 0"
    by (simp add: Future_def)
  note c1 = result_channel_resolved_at_most_once [OF surjective_pairing, of ?c ?wc]
  note c2 = result_channel_resolved_at_most_once [OF surjective_pairing, of ?a ?wl]
  from c1 h1 have t1: "notifications (futures (snd (run ?c ?wc)) (future ?c))
      = notifications (futures ?wc (future ?c))"
    by blast
  from c2 have "fst (run ?a ?wl) = Inr (Some ?t)
       \<and> futures (snd (run ?a ?wl)) (future ?a) = futures (snd (run ?a ?wl)) (future ?a)
       \<and> run_task ?t (snd (run ?a ?wl))
            = (fst (run_task ?t (snd (run ?a ?wl))), snd (run_task ?t (snd (run ?a ?wl))))
      \<longrightarrow> notifications (futures (snd (run_task ?t (snd (run ?a ?wl)))) (future ?a))
            = notifications (futures ?wl (future ?a)) + 1"
    by blast
  with h2 have t2: "notifications (futures (snd (run_task ?t (snd (run ?a ?wl)))) (future ?a))
      = notifications (futures ?wl (future ?a)) + 1"
    by simp
  have f0: "future ?c = 0" "future ?a = 0"
    by simp_all
  show ?thesis
    using h1 h2 t1 t2 n0 unfolding f0 by simp
qed

lemma cancel_pending:
  assumes "fstate (futures w fid) = PENDING"
  shows "fst (cancel fid w) = True"
    and "futures (snd (cancel fid w))
         = (futures w)(fid := (futures w fid)\<lparr>fstate := CANCELLED,
              notifications := notifications (futures w fid) + 1\<rparr>)"
    and "invocations (snd (cancel fid w)) = invocations w"
  using assms by (simp_all add: cancel_def fut_cancel_def put_future_def Let_def)

text \<open>
  C2: a call whose future was cancelled before \<open>run\<close>: \<open>run\<close> returns at once with no
  task, the function is not called, no result and no error are set, no callback runs and
  the channel stays cancelled.
\<close>

theorem cancelled_call_is_never_executed:
  assumes "fstate (futures w (future c)) = CANCELLED"
  shows "fst (run c w) = Inr None
     \<and> invocations (snd (run c w)) = invocations w
     \<and> fresult (futures (snd (run c w)) (future c)) = fresult (futures w (future c))
     \<and> fexception (futures (snd (run c w)) (future c)) = fexception (futures w (future c))
     \<and> notifications (futures (snd (run c w)) (future c))
         = notifications (futures w (future c))
     \<and> resultChannel (futures (snd (run c w)) (future c)) = Cancelled
     \<and> workers (snd (run c w)) = workers w"
  by (simp add: run_cancelled [OF assms] put_future_def resultChannel_def)

theorem cancelled_call_is_never_executed_witness:
  "fst (cancel 0 (example_world one_plus_one)) = True
   \<and> fstate (futures (snd (cancel 0 (example_world one_plus_one))) 0) = CANCELLED
   \<and> fst (run (example_call one_plus_one) (snd (cancel 0 (example_world one_plus_one))))
       = Inr None
   \<and> invocations (snd (run (example_call one_plus_one)
        (snd (cancel 0 (example_world one_plus_one))))) = []"
proof -
  let ?c = "example_call one_plus_one"
  let ?w = "snd (cancel 0 (example_world one_plus_one))"
  have p: "fstate (futures (example_world one_plus_one) 0) = PENDING"
    by (simp add: Future_def)
  have h: "fstate (futures ?w (future ?c)) = CANCELLED"
    by (simp add: cancel_pending(2) [OF p])
  have i: "invocations ?w = []"
    by (simp add: cancel_pending(3) [OF p])
  show ?thesis
    using cancelled_call_is_never_executed [OF h] h i cancel_pending(1) [OF p]
    by simp
qed

text \<open>
  A pending call whose function raises: \<open>run\<close> itself returns normally (nothing reaches
  the worker's loop) and the channel fails with the very exception raised. When the
  truth value of that exception is true, \<open>__call__\<close> and every \<open>result()\<close> raise it.
\<close>

lemma raised_exception_is_stored:
  assumes "fstate (futures w (future c)) = PENDING"
    and "fn c (args c) (kwargs c) (call_context c) = Inl e"
  shows "fst (run c w) = Inr None
     \<and> resultChannel (futures (snd (run c w)) (future c)) = Failed e
     \<and> result (future c) (snd (run c w))
         = Some (if truthy e then Inl e else Inr (fresult (futures w (future c))))
     \<and> dunder_call c w
         = (Some (if truthy e then Inl e else Inr (Value (fresult (futures w (future c))))),
            snd (run c w))"
proof -
  note facts = run_pending_raises [OF assms]
  have res: "result (future c) (snd (run c w))
      = Some (if truthy e then Inl e else Inr (fresult (futures w (future c))))"
    by (simp add: result_def fut_result_def get_result_def facts(2) resolved_def)
  have ch: "resultChannel (futures (snd (run c w)) (future c)) = Failed e"
    by (simp add: resultChannel_def facts(2))
  have dc: "dunder_call c w
      = (Some (if truthy e then Inl e else Inr (Value (fresult (futures w (future c))))),
         snd (run c w))"
    using dunder_call_no_task [OF facts(1)] res
    by (simp add: prod_eq_iff)
  show ?thesis
    using facts(1) res ch dc by simp
qed

lemma truthy_exception_is_reraised:
  assumes "fstate (futures w (future c)) = PENDING"
    and "fn c (args c) (kwargs c) (call_context c) = Inl e"
    and "truthy e"
  shows "fst (run c w) = Inr None
     \<and> resultChannel (futures (snd (run c w)) (future c)) = Failed e
     \<and> result (future c) (snd (run c w)) = Some (Inl e)
     \<and> dunder_call c w = (Some (Inl e), snd (run c w))"
  using raised_exception_is_stored [OF assms(1,2)] assms(3) by simp

lemma value_error_is_reraised:
  "fst (run (example_call raise_value_error) (example_world raise_value_error)) = Inr None
   \<and> fst (dunder_call (example_call raise_value_error) (example_world raise_value_error))
       = Some (Inl (ValueError ''x''))"
proof -
  let ?c = "example_call raise_value_error"
  let ?w = "example_world raise_value_error"
  have p: "fstate (futures ?w (future ?c)) = PENDING"
    by (simp add: Future_def)
  have r: "fn ?c (args ?c) (kwargs ?c) (call_context ?c) = Inl (ValueError ''x'')"
    by (simp add: raise_value_error_def)
  show ?thesis
    using truthy_exception_is_reraised [OF p r] by simp
qed

text \<open>
  C3: the exception that the function of a call raises is captured as the failed outcome
  of the result channel and raised again to whoever invokes the call and reads its
  result, and it never reaches the worker thread. The code does the last and the first,
  but not the second for every exception: here the function raises an exception whose
  truth value is false. \<open>run\<close> returns normally and the channel fails with that very
  exception, yet \<open>result()\<close> and \<open>__call__\<close> return \<open>None\<close> instead of raising it.
\<close>

theorem falsy_exception_is_not_reraised:
  "fst (run (example_call raise_falsy_error) (example_world raise_falsy_error)) = Inr None
   \<and> resultChannel (futures (snd (run (example_call raise_falsy_error)
        (example_world raise_falsy_error))) 0) = Failed (FalsyError ''x'')
   \<and> result 0 (snd (run (example_call raise_falsy_error) (example_world raise_falsy_error)))
       = Some (Inr PyNone)
   \<and> fst (dunder_call (example_call raise_falsy_error) (example_world raise_falsy_error))
       = Some (Inr (Value PyNone))"
proof -
  let ?c = "example_call raise_falsy_error"
  let ?w = "example_world raise_falsy_error"
  have p: "fstate (futures ?w (future ?c)) = PENDING"
    by (simp add: Future_def)
  have r: "fn ?c (args ?c) (kwargs ?c) (call_context ?c) = Inl (FalsyError ''x'')"
    by (simp add: raise_falsy_error_def)
  show ?thesis
    using raised_exception_is_stored [OF p r] by (simp add: Future_def)
qed

lemma finished_value_is_kept:
  assumes "fstate (futures w fid) = FINISHED" and "fexception (futures w fid) = None"
  shows "result fid w = Some (Inr (fresult (futures w fid)))"
    and "set_result fid r' w = (Inl InvalidStateError, w)"
    and "set_exception fid e' w = (Inl InvalidStateError, w)"
    and "cancel fid w = (False, w)"
    and "fst (set_running_or_notify_cancel fid w) = Inl (RuntimeError ''Future in unexpected state'')"
    and "snd (set_running_or_notify_cancel fid w) = w"
  using assms
  by (simp_all add: result_def fut_result_def get_result_def set_result_def fut_set_result_def
      set_exception_def fut_set_exception_def fut_done_def cancel_def
      set_running_or_notify_cancel_def fut_set_running_or_notify_cancel_def)

text \<open>
  C4: a pending call whose function returns a value that is not awaitable: after \<open>run\<close> the
  channel is fulfilled with exactly that value by one terminal transition; \<open>__call__\<close>
  returns it; every \<open>result()\<close> returns it, also after a later \<open>cancel\<close>, \<open>set_result\<close>,
  \<open>set_exception\<close> or a second \<open>run\<close>, all of which are refused.
\<close>

theorem returned_value_is_fulfilled_once:
  assumes "fstate (futures w (future c)) = PENDING"
    and "fexception (futures w (future c)) = None"
    and "fn c (args c) (kwargs c) (call_context c) = Inr r"
    and "\<not> isawaitable r"
  shows "fst (run c w) = Inr None
     \<and> resultChannel (futures (snd (run c w)) (future c)) = Fulfilled r
     \<and> notifications (futures (snd (run c w)) (future c))
         = notifications (futures w (future c)) + 1
     \<and> dunder_call c w = (Some (Inr (Value r)), snd (run c w))
     \<and> result (future c) (snd (run c w)) = Some (Inr r)
     \<and> result (future c) (snd (cancel (future c) (snd (run c w)))) = Some (Inr r)
     \<and> result (future c) (snd (set_result (future c) r' (snd (run c w)))) = Some (Inr r)
     \<and> result (future c) (snd (set_exception (future c) e' (snd (run c w)))) = Some (Inr r)
     \<and> result (future c) (snd (run c (snd (run c w)))) = Some (Inr r)"
proof -
  let ?w1 = "snd (run c w)"
  note facts = run_pending_returns [OF assms(1) assms(3) assms(4)]
  have fin: "fstate (futures ?w1 (future c)) = FINISHED"
    and noexc: "fexception (futures ?w1 (future c)) = None"
    and val: "fresult (futures ?w1 (future c)) = r"
    by (simp_all add: facts(2) assms(2))
  note kept = finished_value_is_kept [OF fin noexc]
  have res: "result (future c) ?w1 = Some (Inr r)"
    using kept(1) val by simp
  have ch: "resultChannel (futures ?w1 (future c)) = Fulfilled r"
    by (simp add: resultChannel_def fin noexc val)
  have n: "notifications (futures ?w1 (future c)) = notifications (futures w (future c)) + 1"
    by (simp add: facts(2))
  have dc: "dunder_call c w = (Some (Inr (Value r)), ?w1)"
    using dunder_call_no_task [OF facts(1)] res by (simp add: prod_eq_iff)
  have again: "run c ?w1 = (Inl (RuntimeError ''Future in unexpected state''), ?w1)"
    by (rule run_unexpected) (simp_all add: fin)
  show ?thesis
    using facts(1) ch n dc res by (simp add: kept(2,3,4) again)
qed

theorem returned_value_is_fulfilled_once_witness:
  "fstate (futures (example_world one_plus_one) 0) = PENDING
   \<and> fexception (futures (example_world one_plus_one) 0) = None
   \<and> one_plus_one [] [] Map.empty = Inr (Plain 2)
   \<and> \<not> isawaitable (Plain (2::int))
   \<and> resultChannel (futures (snd (run (example_call one_plus_one)
        (example_world one_plus_one))) 0) = Fulfilled (Plain 2)
   \<and> dunder_call (example_call one_plus_one) (example_world one_plus_one)
       = (Some (Inr (Value (Plain 2))), snd (run (example_call one_plus_one)
            (example_world one_plus_one)))"
proof -
  let ?c = "example_call one_plus_one"
  let ?w = "example_world one_plus_one"
  have p: "fstate (futures ?w (future ?c)) = PENDING"
    and x: "fexception (futures ?w (future ?c)) = None"
    by (simp_all add: Future_def)
  have r: "fn ?c (args ?c) (kwargs ?c) (call_context ?c) = Inr (Plain 2)"
    by (simp add: one_plus_one_def)
  have a: "\<not> isawaitable (Plain (2::int))"
    by simp
  show ?thesis
    using returned_value_is_fulfilled_once [OF p x r a] p x r by simp
qed

text \<open>
  C5: \<open>Call.new\<close> keeps a copy of the context that is current when the call is made, and
  \<open>run\<close> calls the function once with that copy as the current context, whatever the
  current context of the executing thread is, which is current again afterwards. The
  future and the value of \<open>run\<close> are those given by the function's outcome in the copy;
  a coroutine it returns is awaited in the copy as well.
\<close>

theorem function_runs_in_creation_context:
  assumes "new f as kws ws = (c, ws')"
    and "fstate (futures w (future c)) = PENDING"
  shows "call_context c = current_context ws
     \<and> invocations (snd (run c w)) = invocations w @ [current_context ws]
     \<and> current_context (snd (run c w)) = current_context w
     \<and> futures (snd (run c w)) (future c) =
         (case f as kws (current_context ws) of
            Inl e \<Rightarrow> resolved (futures w (future c)) (Inl e)
          | Inr (Awaitable co) \<Rightarrow>
              if running_loop w then (futures w (future c))\<lparr>fstate := RUNNING\<rparr>
              else resolved (futures w (future c)) (co (current_context ws))
          | Inr r \<Rightarrow> resolved (futures w (future c)) (Inr r))
     \<and> fst (run c w) =
         (case f as kws (current_context ws) of
            Inr (Awaitable co) \<Rightarrow>
              if running_loop w then Inr (Some (Task c co (current_context ws))) else Inr None
          | _ \<Rightarrow> Inr None)"
proof -
  have c: "fn c = f" "args c = as" "kwargs c = kws" "call_context c = current_context ws"
    using assms(1) by (auto simp: new_def copy_context_def)
  show ?thesis
  proof (cases "f as kws (current_context ws)")
    case (Inl e)
    then have "fn c (args c) (kwargs c) (call_context c) = Inl e"
      by (simp add: c)
    from run_pending_raises [OF assms(2) this] show ?thesis
      by (simp add: c Inl)
  next
    case (Inr r)
    then have out: "fn c (args c) (kwargs c) (call_context c) = Inr r"
      by (simp add: c)
    show ?thesis
    proof (cases "isawaitable r")
      case False
      from run_pending_returns [OF assms(2) out False] False show ?thesis
        by (cases r) (simp_all add: c Inr)
    next
      case True
      then obtain co where r: "r = Awaitable co"
        by (cases r) simp_all
      show ?thesis
      proof (cases "running_loop w")
        case True
        from run_pending_awaitable_loop [OF assms(2) out [unfolded r] True] True
        show ?thesis
          by (simp add: c Inr r)
      next
        case False
        from run_pending_awaitable_noloop [OF assms(2) out [unfolded r] False] False
        show ?thesis
          by (simp add: c Inr r)
      qed
    qed
  qed
qed

theorem function_runs_in_creation_context_witness:
  "new read_request_id [] [] submitting
     = (fst (new read_request_id [] [] submitting), snd (new read_request_id [] [] submitting))
   \<and> fstate (futures executing (future (fst (new read_request_id [] [] submitting)))) = PENDING
   \<and> current_context executing ''request_id'' = Some 99
   \<and> resultChannel (futures (snd (run (fst (new read_request_id [] [] submitting)) executing))
        (future (fst (new read_request_id [] [] submitting)))) = Fulfilled (Plain 7)
   \<and> current_context (snd (run (fst (new read_request_id [] [] submitting)) executing))
        ''request_id'' = Some 99"
proof -
  let ?c = "fst (new read_request_id [] [] submitting)"
  have p: "fstate (futures executing (future ?c)) = PENDING"
    by (simp add: executing_def new_def submitting_def process0_def Future_def)
  have amb: "current_context executing ''request_id'' = Some 99"
    by (simp add: executing_def)
  have sub: "current_context submitting = [''request_id'' \<mapsto> 7]"
    by (simp add: submitting_def)
  have f0: "futures executing (future ?c) = Future"
    by (simp add: executing_def new_def submitting_def process0_def)
  note inst = function_runs_in_creation_context [OF surjective_pairing p]
  have fut: "futures (snd (run ?c executing)) (future ?c) = resolved Future (Inr (Plain 7))"
    using inst by (simp add: sub read_request_id_def f0)
  have ch: "resultChannel (resolved Future (Inr (Plain (7::int)))) = Fulfilled (Plain 7)"
    by (simp add: resolved_def Future_def resultChannel_def)
  have cur: "current_context (snd (run ?c executing)) = current_context executing"
    using inst by simp
  show ?thesis
    using p amb fut ch cur by simp
qed

section \<open>Worker.shutdown\<close>

lemma shutdown_never_started:
  "shutdown_event (workers w self) = None \<Longrightarrow> shutdown self w = (Inr (), w)"
  by (simp add: shutdown_def)

lemma shutdown_started:
  "shutdown_event (workers w self) = Some ev \<Longrightarrow>
   shutdown self w =
     (Inr (), put_worker self ((workers w self)\<lparr>shutdown_event := Some (Event True)\<rparr>) w)"
  by (cases ev) (simp add: shutdown_def put_worker_def)

text \<open>
  C9: \<open>shutdown\<close> never raises; on a worker that was never started it changes nothing;
  on a started worker it sets the event; a second \<open>shutdown\<close> changes nothing more,
  raises nothing and leaves the event set.
\<close>

theorem shutdown_is_idempotent:
  "fst (shutdown self w) = Inr ()
   \<and> (wf_worker (workers w self) \<and> thread_state (workers w self) = Unstarted
        \<longrightarrow> snd (shutdown self w) = w)
   \<and> (shutdown_event (workers w self) = None \<longrightarrow> snd (shutdown self w) = w)
   \<and> shutdown self (snd (shutdown self w)) = (Inr (), snd (shutdown self w))
   \<and> (\<forall>ev. shutdown_event (workers w self) = Some ev \<longrightarrow>
        shutdown_event (workers (snd (shutdown self w)) self) = Some (Event True)
        \<and> shutdown_event (workers (snd (shutdown self (snd (shutdown self w)))) self)
            = Some (Event True))"
proof (cases "shutdown_event (workers w self)")
  case None
  then show ?thesis
    by (simp add: shutdown_never_started)
next
  case (Some ev)
  let ?w1 = "put_worker self ((workers w self)\<lparr>shutdown_event := Some (Event True)\<rparr>) w"
  have first: "shutdown self w = (Inr (), ?w1)"
    by (rule shutdown_started [OF Some])
  have ev1: "shutdown_event (workers ?w1 self) = Some (Event True)"
    by (simp add: put_worker_def)
  have second: "shutdown self ?w1 = (Inr (), ?w1)"
    using shutdown_started [OF ev1] by (simp add: put_worker_def)
  have nostart: "\<not> (wf_worker (workers w self) \<and> thread_state (workers w self) = Unstarted)"
    using Some by (auto simp: wf_worker_def)
  show ?thesis
    using nostart by (auto simp: first second ev1 Some)
qed

section \<open>Worker.start\<close>

lemma start_again:
  "thread_state (workers w self) \<noteq> Unstarted \<Longrightarrow>
   start self w = (Some (Inl (RuntimeError ''threads can only be started once'')), w)"
  by (simp add: start_def)

lemma start_unstarted:
  assumes "wf_worker (workers w self)" and "thread_state (workers w self) = Unstarted"
  shows "boot_fault w = NoFault \<Longrightarrow>
           start self w = (Some (Inr ()), put_worker self (started (workers w self)) w)"
    and "fst (start self w) = start_outcome (boot_fault w)"
    and "boot_fault w \<noteq> NoFault \<Longrightarrow>
           shutdown_event (workers (snd (start self w)) self) = None"
  using assms
  by (cases "boot_fault w";
      simp add: start_def entrypoint_def run_until_shutdown_def wf_worker_def Future_def
        fut_set_result_def fut_set_exception_def fut_done_def fut_result_def get_result_def
        put_worker_def setup_failed_def close_loop_def started_def start_outcome_def)+

lemma start_outcome_fault: "b \<noteq> NoFault \<Longrightarrow> start_outcome b \<noteq> Some (Inr ())"
  by (cases b) (simp_all add: start_outcome_def)

lemma add_done_callback_workers:
  "\<not> fut_done (futures w fid) \<Longrightarrow> workers (add_done_callback fid cb w) = workers w"
  by (simp add: add_done_callback_def put_future_def Let_def)

lemma add_done_callback_shutdown_fields:
  "submitted_count (workers (add_done_callback fid (ShutdownWorker self) w) i)
     = submitted_count (workers w i)"
  "loop (workers (add_done_callback fid (ShutdownWorker self) w) i) = loop (workers w i)"
  by (auto simp: add_done_callback_def put_future_def shutdown_def Let_def split: option.splits)

lemma submit_exhausted:
  "0 < submitted_count (workers w self) \<and> run_once (workers w self) \<Longrightarrow>
   submit self c w = (Some (Inl RunOnceExhausted), w)"
  by (simp add: submit_def)

lemma submit_shutdown:
  assumes "\<not> (0 < submitted_count (workers w self) \<and> run_once (workers w self))"
    and "shutdown_event (workers w self) = Some ev" and "is_set ev"
  shows "submit self c w = (Some (Inl WorkerShutdown), w)"
  using assms by (auto simp: submit_def)

lemma submit_start_fails:
  assumes "\<not> (0 < submitted_count (workers w self) \<and> run_once (workers w self))"
    and "shutdown_event (workers w self) = None"
    and "fst (start self w) = Some (Inl e)"
  shows "submit self c w = (Some (Inl e), snd (start self w))"
  using assms by (cases "start self w") (auto simp: submit_def)

lemma submit_start_not_done:
  assumes "\<not> (0 < submitted_count (workers w self) \<and> run_once (workers w self))"
    and "shutdown_event (workers w self) = None"
    and "fst (start self w) \<noteq> Some (Inr ())"
  shows "submit self c w = start self w"
proof (cases "start self w")
  case (Pair r w1)
  show ?thesis
  proof (cases r)
    case None
    then show ?thesis
      using assms(1,2) Pair by (auto simp: submit_def)
  next
    case (Some x)
    with assms(3) Pair obtain e where "x = Inl e"
      by (cases x) simp_all
    then show ?thesis
      using assms(1,2) Pair Some by (auto simp: submit_def)
  qed
qed

lemma submit_running:
  assumes "\<not> (0 < submitted_count (workers w self) \<and> run_once (workers w self))"
    and "shutdown_event (workers w self) = Some ev" and "\<not> is_set ev"
    and "loop (workers w self) = Some l" and "\<not> closed l"
  shows "submit self c w = (Some (Inr ()), accepted self c l w)"
  using assms
  by (auto simp: submit_def call_soon_threadsafe_def accepted_def Let_def put_worker_def)

lemma submit_lazy_start:
  assumes "\<not> (0 < submitted_count (workers w self) \<and> run_once (workers w self))"
    and "wf_worker (workers w self)" and "thread_state (workers w self) = Unstarted"
    and "boot_fault w = NoFault"
  shows "submit self c w =
           (Some (Inr ()),
            accepted self c \<lparr>scheduled = [], closed = False\<rparr>
              (put_worker self (started (workers w self)) w))"
proof -
  have ev: "shutdown_event (workers w self) = None"
    using assms(2,3) by (simp add: wf_worker_def)
  have st: "start self w = (Some (Inr ()), put_worker self (started (workers w self)) w)"
    by (rule start_unstarted(1) [OF assms(2,3,4)])
  show ?thesis
    using assms(1) ev st
    by (auto simp: submit_def call_soon_threadsafe_def accepted_def Let_def put_worker_def
        started_def)
qed

lemma accepted_fields:
  "submitted_count (workers (accepted self c l w) self) = submitted_count (workers w self) + 1"
  "loop (workers (accepted self c l w) self) = Some (l\<lparr>scheduled := scheduled l @ [c]\<rparr>)"
  by (simp_all add: accepted_def Let_def add_done_callback_shutdown_fields put_worker_def)

lemma submit_outcome:
  assumes "wf_worker (workers w self)"
  shows "fst (submit self c w) =
           (if 0 < submitted_count (workers w self) \<and> run_once (workers w self)
            then Some (Inl RunOnceExhausted)
            else (case shutdown_event (workers w self) of
                    None \<Rightarrow>
                      if thread_state (workers w self) \<noteq> Unstarted
                      then Some (Inl (RuntimeError ''threads can only be started once''))
                      else start_outcome (boot_fault w)
                  | Some ev \<Rightarrow>
                      if is_set ev then Some (Inl WorkerShutdown) else Some (Inr ())))
     \<and> (fst (submit self c w) = Some (Inr ()) \<longrightarrow>
          submitted_count (workers (snd (submit self c w)) self)
            = submitted_count (workers w self) + 1
          \<and> scheduled_calls (workers (snd (submit self c w)) self)
            = scheduled_calls (workers w self) @ [c])"
proof (cases "0 < submitted_count (workers w self) \<and> run_once (workers w self)")
  case True
  then show ?thesis
    by (simp add: submit_exhausted RunOnceExhausted_def)
next
  case False
  show ?thesis
  proof (cases "shutdown_event (workers w self)")
    case (Some ev)
    show ?thesis
    proof (cases "is_set ev")
      case True
      show ?thesis
        by (simp add: False submit_shutdown [OF False Some True] Some True WorkerShutdown_def)
    next
      case unset: False
      from assms Some unset obtain l where l: "loop (workers w self) = Some l" "\<not> closed l"
        by (auto simp: wf_worker_def split: option.splits)
      show ?thesis
        by (simp add: False submit_running [OF False Some unset l] Some unset accepted_fields
            scheduled_calls_def l)
    qed
  next
    case None
    show ?thesis
    proof (cases "thread_state (workers w self) = Unstarted")
      case again: False
      have "submit self c w
          = (Some (Inl (RuntimeError ''threads can only be started once'')), w)"
        using submit_start_fails [OF False None, of "RuntimeError ''threads can only be started once''" c]
        by (simp add: start_again [OF again])
      then show ?thesis
        by (simp add: False None again)
    next
      case True
      show ?thesis
      proof (cases "boot_fault w = NoFault")
        case ok: True
        have l0: "loop (workers w self) = None"
          using assms True by (simp add: wf_worker_def)
        show ?thesis
          by (simp add: False submit_lazy_start [OF False assms True ok] None True ok
              start_outcome_def accepted_fields scheduled_calls_def l0 put_worker_def
              started_def)
      next
        case fault: False
        have st: "fst (start self w) = start_outcome (boot_fault w)"
          by (rule start_unstarted(2) [OF assms True])
        have nd: "fst (start self w) \<noteq> Some (Inr ())"
          using start_outcome_fault [OF fault] st by simp
        from submit_start_not_done [OF False None nd, of c]
        show ?thesis
          using nd by (simp add: False None True st)
      qed
    qed
  qed
qed

lemma worker_process_simps [simp]:
  "workers worker_process 0 = Worker ''WorkerThread'' False False"
  "boot_fault worker_process = NoFault"
  "workers once_process 0 = Worker ''WorkerThread'' False True"
  "boot_fault once_process = NoFault"
  "workers faulty_process 0 = Worker ''WorkerThread'' False False"
  "boot_fault faulty_process = FailEvent"
  by (simp_all add: worker_process_def once_process_def faulty_process_def Worker_init_def
      Let_def example_world_def new_def process0_def)

lemma wf_worker_new [simp]: "wf_worker (Worker name daemon once)"
  by (simp add: wf_worker_def Worker_def)

lemma Worker_fields [simp]:
  "thread_state (Worker name daemon once) = Unstarted"
  "shutdown_event (Worker name daemon once) = None"
  "loop (Worker name daemon once) = None"
  "run_once (Worker name daemon once) = once"
  "submitted_count (Worker name daemon once) = 0"
  "thread_daemon (Worker name daemon once) = daemon"
  "thread_name (Worker name daemon once) = name"
  "ready_future (Worker name daemon once) = Future"
  by (simp_all add: Worker_def)

text \<open>
  C6, as the code has it: \<open>submit\<close> on a well-formed worker raises in exactly three kinds
  of cases: \<open>RunOnceExhausted\<close> when the worker runs once and has accepted a call;
  otherwise, on a worker without an event, what the lazy \<open>start\<close> raises (the error that
  the handler of the thread's setup put on the ready future, or the refusal to start a
  thread twice); otherwise \<open>WorkerShutdown\<close> when the event is set. It waits for ever
  when the lazy \<open>start\<close> does, that is, when the thread ends without touching the ready
  future. In every other case the call is appended to the loop's callbacks and the count
  grows by one.
\<close>

theorem submit_raises_exactly_when:
  assumes "wf_worker (workers w self)"
  shows "fst (submit self c w) =
           (if 0 < submitted_count (workers w self) \<and> run_once (workers w self)
            then Some (Inl RunOnceExhausted)
            else (case shutdown_event (workers w self) of
                    None \<Rightarrow>
                      if thread_state (workers w self) \<noteq> Unstarted
                      then Some (Inl (RuntimeError ''threads can only be started once''))
                      else start_outcome (boot_fault w)
                  | Some ev \<Rightarrow>
                      if is_set ev then Some (Inl WorkerShutdown) else Some (Inr ())))
     \<and> (fst (submit self c w) = Some (Inr ()) \<longrightarrow>
          submitted_count (workers (snd (submit self c w)) self)
            = submitted_count (workers w self) + 1
          \<and> scheduled_calls (workers (snd (submit self c w)) self)
            = scheduled_calls (workers w self) @ [c])"
  by (rule submit_outcome [OF assms])

theorem submit_raises_exactly_when_witness:
  "wf_worker (workers worker_process 0)
   \<and> fst (submit 0 (example_call one_plus_one) worker_process) = Some (Inr ())
   \<and> submitted_count (workers (snd (submit 0 (example_call one_plus_one) worker_process)) 0) = 1
   \<and> scheduled_calls (workers (snd (submit 0 (example_call one_plus_one) worker_process)) 0)
       = [example_call one_plus_one]"
proof -
  have wf: "wf_worker (workers worker_process 0)"
    by simp
  show ?thesis
    using submit_raises_exactly_when [OF wf, of "example_call one_plus_one"] wf
    by (simp add: start_outcome_def scheduled_calls_def)
qed

text \<open>
  C6 as stated fails: a worker that was never started, that does not run once and whose
  shutdown signal is not set raises from \<open>submit\<close> when the setup of its thread fails, and
  the error is neither \<open>RunOnceExhausted\<close> nor \<open>WorkerShutdown\<close>.
\<close>

theorem submit_raises_startup_error:
  "fst (submit 0 (example_call one_plus_one) faulty_process) = Some (Inl MemoryError)
   \<and> \<not> (0 < submitted_count (workers faulty_process 0) \<and> run_once (workers faulty_process 0))
   \<and> thread_state (workers faulty_process 0) = Unstarted
   \<and> shutdown_event (workers faulty_process 0) = None
   \<and> MemoryError \<noteq> RunOnceExhausted
   \<and> MemoryError \<noteq> WorkerShutdown"
proof -
  have wf: "wf_worker (workers faulty_process 0)"
    by simp
  have "fst (start 0 faulty_process) = Some (Inl MemoryError)"
    using start_unstarted(2) [OF wf] by (simp add: start_outcome_def)
  then have "submit 0 (example_call one_plus_one) faulty_process
      = (Some (Inl MemoryError), snd (start 0 faulty_process))"
    by (intro submit_start_fails) simp_all
  then show ?thesis
    by (simp add: RunOnceExhausted_def WorkerShutdown_def)
qed

theorem shutdown_is_idempotent_witness:
  "wf_worker (workers worker_process 0) \<and> thread_state (workers worker_process 0) = Unstarted
   \<and> snd (shutdown 0 worker_process) = worker_process
   \<and> shutdown_event (workers (snd (start 0 worker_process)) 0) = Some (Event False)
   \<and> shutdown_event (workers (snd (shutdown 0 (snd (start 0 worker_process)))) 0)
       = Some (Event True)
   \<and> shutdown 0 (snd (shutdown 0 (snd (start 0 worker_process))))
       = (Inr (), snd (shutdown 0 (snd (start 0 worker_process))))"
proof -
  have wf: "wf_worker (workers worker_process 0)"
    and un: "thread_state (workers worker_process 0) = Unstarted"
    by simp_all
  have ev: "shutdown_event (workers (snd (start 0 worker_process)) 0) = Some (Event False)"
    by (simp add: start_unstarted(1) [OF wf un] put_worker_def started_def)
  show ?thesis
    using shutdown_is_idempotent [of 0 worker_process]
      shutdown_is_idempotent [of 0 "snd (start 0 worker_process)"] wf un ev
    by simp
qed

text \<open>
  C10: when \<open>submit\<close> raises \<open>RunOnceExhausted\<close> or \<open>WorkerShutdown\<close>, nothing has changed:
  not the count, not the callbacks scheduled on the loop, not the done callbacks of the
  call's future, nor anything else in the process.
\<close>

theorem refused_submit_changes_nothing:
  assumes "wf_worker (workers w self)"
    and "fst (submit self c w) = Some (Inl RunOnceExhausted)
         \<or> fst (submit self c w) = Some (Inl WorkerShutdown)"
  shows "snd (submit self c w) = w"
proof (cases "0 < submitted_count (workers w self) \<and> run_once (workers w self)")
  case True
  then show ?thesis
    by (simp add: submit_exhausted)
next
  case False
  note chr = submit_outcome [OF assms(1), of c, THEN conjunct1]
  show ?thesis
  proof (cases "shutdown_event (workers w self)")
    case None
    from assms(2) chr have False
      by (auto simp: False None RunOnceExhausted_def WorkerShutdown_def start_outcome_def
          split: if_splits boot_fault.splits)
    then show ?thesis ..
  next
    case (Some ev)
    from assms(2) chr have "is_set ev"
      by (auto simp: False Some split: if_splits)
    then show ?thesis
      by (simp add: submit_shutdown [OF False Some])
  qed
qed

theorem refused_submit_changes_nothing_witness:
  "wf_worker (workers (snd (submit 0 (example_call one_plus_one) once_process)) 0)
   \<and> fst (submit 0 (example_call one_plus_one) once_process) = Some (Inr ())
   \<and> fst (submit 0 (example_call one_plus_one)
        (snd (submit 0 (example_call one_plus_one) once_process))) = Some (Inl RunOnceExhausted)
   \<and> snd (submit 0 (example_call one_plus_one)
        (snd (submit 0 (example_call one_plus_one) once_process)))
       = snd (submit 0 (example_call one_plus_one) once_process)"
proof -
  let ?c = "example_call one_plus_one"
  let ?w1 = "snd (submit 0 ?c once_process)"
  have first: "submit 0 ?c once_process
      = (Some (Inr ()),
         accepted 0 ?c \<lparr>scheduled = [], closed = False\<rparr>
           (put_worker 0 (started (workers once_process 0)) once_process))"
    by (rule submit_lazy_start) simp_all
  have nd: "\<not> fut_done (futures once_process 0)"
    by (simp add: once_process_def Worker_init_def Let_def fut_done_def Future_def)
  have wk: "workers ?w1 0
      = (started (Worker ''WorkerThread'' False True))
          \<lparr>loop := Some \<lparr>scheduled = [?c], closed = False\<rparr>, submitted_count := 1\<rparr>"
    using nd
    by (simp add: first accepted_def Let_def put_worker_def add_done_callback_def
        put_future_def started_def)
  have wf: "wf_worker (workers ?w1 0)"
    by (simp add: wk wf_worker_def started_def)
  have second: "fst (submit 0 ?c ?w1) = Some (Inl RunOnceExhausted)"
    by (simp add: submit_exhausted wk started_def)
  show ?thesis
    using refused_submit_changes_nothing [OF wf, of ?c] wf second first
    by simp
qed

section \<open>get_global_worker\<close>










lemma process0_simps [simp]:
  "GLOBAL_WORKER process0 = None" "boot_fault process0 = NoFault" "next_worker process0 = 0"
  by (simp_all add: process0_def)

lemma with_global_worker_simps [simp]:
  "GLOBAL_WORKER (with_global_worker w) = Some (next_worker w)"
  "next_worker (with_global_worker w) = Suc (next_worker w)"
  "boot_fault (with_global_worker w) = boot_fault w"
  "workers (with_global_worker w) (next_worker w) = started (Worker ''GlobalWorkerThread'' True False)"
  by (simp_all add: with_global_worker_def)



section \<open>Threads in get_global_worker\<close>

lemma goto_simps [simp]:
  "shared (goto t p w s) = w" "pcs (goto t p w s) t = p"
  "u \<noteq> t \<Longrightarrow> pcs (goto t p w s) u = pcs s u"
  by (simp_all add: goto_def)

lemma goto_goto [simp]: "goto t p w (goto t q v s) = goto t p w s"
  by (simp add: goto_def)

lemma step_exited [simp]: "pcs s t = Exited r \<Longrightarrow> step t s = s"
  by (simp add: step_def)







section \<open>Asynchronous functions that raise\<close>

lemma raised_in_coroutine_is_captured:
  assumes "fstate (futures w (future c)) = PENDING"
    and "fn c (args c) (kwargs c) (call_context c) = Inr (Awaitable co)"
    and "co (call_context c) = Inl e" and "truthy e"
  shows "\<not> running_loop w \<Longrightarrow>
           fst (run c w) = Inr None
           \<and> resultChannel (futures (snd (run c w)) (future c)) = Failed e
           \<and> dunder_call c w = (Some (Inl e), snd (run c w))"
    and "running_loop w \<Longrightarrow>
           dunder_call c w
             = (Some (Inr (RunAndReturnResult c (Task c co (call_context c)))), snd (run c w))
           \<and> fst (run_and_return_result c (Task c co (call_context c)) (snd (run c w)))
               = Some (Inl e)"
proof -
  assume noloop: "\<not> running_loop w"
  note facts = run_pending_awaitable_noloop [OF assms(1,2) noloop]
  have res: "result (future c) (snd (run c w)) = Some (Inl e)"
    by (simp add: result_def fut_result_def get_result_def facts(2) assms(3,4))
  have ch: "resultChannel (futures (snd (run c w)) (future c)) = Failed e"
    by (simp add: resultChannel_def facts(2) assms(3))
  have dc: "dunder_call c w = (Some (Inl e), snd (run c w))"
    using dunder_call_no_task [OF facts(1)] res by (simp add: prod_eq_iff)
  show "fst (run c w) = Inr None
      \<and> resultChannel (futures (snd (run c w)) (future c)) = Failed e
      \<and> dunder_call c w = (Some (Inl e), snd (run c w))"
    using facts(1) ch dc by simp
next
  assume inloop: "running_loop w"
  let ?t = "Task c co (call_context c)"
  let ?w1 = "snd (run c w)"
  note facts = run_pending_awaitable_loop [OF assms(1,2) inloop]
  have dc: "dunder_call c w = (Some (Inr (RunAndReturnResult c ?t)), ?w1)"
    using facts(1) by (cases "run c w") (simp add: dunder_call_def)
  have nd: "\<not> fut_done (futures ?w1 (future c))"
    by (simp add: facts(2) fut_done_def)
  note rt = run_task_not_done [OF nd, of co "call_context c"]
  have "fst (run_and_return_result c ?t ?w1) = result (future c) (snd (run_task ?t ?w1))"
    using rt(1) by (cases "run_task ?t ?w1") (simp add: run_and_return_result_def)
  also have "\<dots> = Some (Inl e)"
    using rt(2) by (simp add: result_def fut_result_def get_result_def assms(3,4))
  finally show "dunder_call c w = (Some (Inr (RunAndReturnResult c ?t)), ?w1)
      \<and> fst (run_and_return_result c ?t ?w1) = Some (Inl e)"
    using dc by simp
qed

section \<open>Well-formed workers stay well-formed\<close>

lemma is_set_event_set [simp]: "is_set (event_set ev)"
  by (cases ev) simp

lemma wf_worker_shutdown:
  "wf_worker (workers w i) \<Longrightarrow> wf_worker (workers (snd (shutdown self w)) i)"
  by (auto simp: shutdown_def wf_worker_def split: option.splits)

lemma wf_worker_wait_returns:
  "wf_worker (workers w i) \<Longrightarrow> wf_worker (workers (wait_returns self w) i)"
  by (auto simp: wait_returns_def wf_worker_def Let_def put_worker_def close_loop_def
      split: option.splits)

lemma wf_worker_start:
  assumes "wf_worker (workers w i)"
  shows "wf_worker (workers (snd (start self w)) i)"
proof (cases "thread_state (workers w self) = Unstarted")
  case False
  then show ?thesis
    using assms by (simp add: start_again)
next
  case True
  show ?thesis
  proof (cases "i = self")
    case False
    then show ?thesis
      using assms
      by (cases "boot_fault w")
        (simp_all add: start_def entrypoint_def run_until_shutdown_def Let_def put_worker_def
          split: sum.splits)
  next
    case same: True
    show ?thesis
      using assms True unfolding same
      by (cases "boot_fault w";
          simp add: start_def entrypoint_def run_until_shutdown_def wf_worker_def Future_def
            fut_set_result_def fut_set_exception_def fut_done_def put_worker_def
            setup_failed_def close_loop_def)
  qed
qed

lemma wf_worker_add_done_callback:
  "wf_worker (workers w i) \<Longrightarrow>
   wf_worker (workers (add_done_callback fid (ShutdownWorker self) w) i)"
  by (simp add: add_done_callback_def Let_def put_future_def wf_worker_shutdown)

lemma wf_worker_accepted:
  assumes "wf_worker (workers w i)"
    and "loop (workers w self) = Some l" and "shutdown_event (workers w self) \<noteq> None"
  shows "wf_worker (workers (accepted self c l w) i)"
proof -
  let ?w2 = "put_worker self ((workers w self)
                 \<lparr>loop := Some (l\<lparr>scheduled := scheduled l @ [c]\<rparr>),
                  submitted_count := submitted_count (workers w self) + 1\<rparr>) w"
  have "wf_worker (workers ?w2 i)"
    using assms by (auto simp: put_worker_def wf_worker_def split: option.splits)
  then show ?thesis
    by (simp add: accepted_def Let_def wf_worker_add_done_callback)
qed

lemma wf_worker_submit:
  assumes "wf_worker (workers w i)" and "wf_worker (workers w self)"
  shows "wf_worker (workers (snd (submit self c w)) i)"
proof (cases "0 < submitted_count (workers w self) \<and> run_once (workers w self)")
  case True
  then show ?thesis
    using assms(1) by (simp add: submit_exhausted)
next
  case False
  show ?thesis
  proof (cases "shutdown_event (workers w self)")
    case (Some ev)
    show ?thesis
    proof (cases "is_set ev")
      case True
      show ?thesis
        using assms(1) by (simp add: submit_shutdown [OF False Some True])
    next
      case unset: False
      from assms(2) Some unset obtain l where l: "loop (workers w self) = Some l" "\<not> closed l"
        by (auto simp: wf_worker_def split: option.splits)
      show ?thesis
        using wf_worker_accepted [OF assms(1) l(1), of c] Some
        by (simp add: submit_running [OF False Some unset l])
    qed
  next
    case None
    show ?thesis
    proof (cases "thread_state (workers w self) = Unstarted \<and> boot_fault w = NoFault")
      case True
      let ?w1 = "put_worker self (started (workers w self)) w"
      have w1: "wf_worker (workers ?w1 i)"
        using assms(1) by (auto simp: put_worker_def started_def wf_worker_def)
      have "wf_worker (workers (accepted self c \<lparr>scheduled = [], closed = False\<rparr> ?w1) i)"
        by (rule wf_worker_accepted [OF w1]) (simp_all add: put_worker_def started_def)
      then show ?thesis
        using True by (simp add: submit_lazy_start [OF False assms(2)])
    next
      case fails: False
      have "fst (start self w) \<noteq> Some (Inr ())"
      proof (cases "thread_state (workers w self) = Unstarted")
        case False
        then show ?thesis
          by (simp add: start_again)
      next
        case True
        with fails have fault: "boot_fault w \<noteq> NoFault"
          by simp
        from start_unstarted(2) [OF assms(2) True] start_outcome_fault [OF fault]
        show ?thesis
          by simp
      qed
      from submit_start_not_done [OF False None this] show ?thesis
        using wf_worker_start [OF assms(1)] by simp
    qed
  qed
qed

end
